theory Spec2Isabelle
  imports Main "HOL-Library.Word"
begin

section \<open>Data model of \<open>assignment.cpp\<close>\<close>

text \<open>
  Addresses are natural numbers and the null pointer is address \<open>0\<close>. The same type serves
  for pointers to managed objects (\<open>T*\<close>) and for pointers to control blocks
  (\<open>detail::ControlBlock*\<close>); the two live in separate address spaces of the model.
\<close>

type_synonym addr = nat

abbreviation nullptr :: addr where
  "nullptr \<equiv> 0"

text \<open>
  A deleter of type \<open>std::function<void(T*)>\<close> is either \<open>std::default_delete\<close> or a
  caller-supplied callable, identified by a number. \<open>detail::make_deleter\<close> returns the
  closure \<open>[deleter, ptr] { deleter(ptr); }\<close>: the pair of what it captures.
\<close>

datatype deleter = default_delete | custom_deleter nat

type_synonym erased_deleter_t = "deleter \<times> addr"

definition make_deleter :: "deleter \<Rightarrow> addr \<Rightarrow> erased_deleter_t" where
  "make_deleter deleter ptr = (deleter, ptr)"

text \<open>\<open>detail::ControlBlock\<close>; \<open>std::size_t\<close> is a 64-bit unsigned integer.\<close>

record ControlBlock =
  m_count :: "64 word"
  m_deleter :: erased_deleter_t

definition ControlBlock_ctor :: "erased_deleter_t \<Rightarrow> ControlBlock" where
  "ControlBlock_ctor deleter = \<lparr>m_count = 1, m_deleter = deleter\<rparr>"

definition get_count :: "ControlBlock \<Rightarrow> 64 word" where
  "get_count cb = m_count cb"

text \<open>\<open>fetch_sub_1\<close> returns the count before the subtraction, and the updated block.\<close>

definition fetch_sub_1 :: "ControlBlock \<Rightarrow> 64 word \<times> ControlBlock" where
  "fetch_sub_1 cb = (m_count cb, cb\<lparr>m_count := m_count cb - 1\<rparr>)"

definition increment_count :: "ControlBlock \<Rightarrow> ControlBlock" where
  "increment_count cb = cb\<lparr>m_count := m_count cb + 1\<rparr>"

text \<open>\<open>decrement_count\<close> is written with \<open>++m_count\<close> in the source; no operation calls it.\<close>

definition decrement_count :: "ControlBlock \<Rightarrow> ControlBlock" where
  "decrement_count cb = cb\<lparr>m_count := m_count cb + 1\<rparr>"

text \<open>\<open>SharedPtr<T>\<close>: the two private fields.\<close>

record SharedPtr =
  m_control_block :: addr
  m_ptr :: addr

text \<open>
  The program state: the handle objects (each \<open>SharedPtr\<close> variable is a location, so that
  two references may name the same object), the heap of control blocks, and the log of
  erased deleters that have been invoked, in order.
\<close>

type_synonym hid = nat

record world =
  handles :: "hid \<Rightarrow> SharedPtr"
  blocks :: "addr \<rightharpoonup> ControlBlock"
  deleted :: "erased_deleter_t list"

text \<open>
  \<open>bad_alloc\<close> is the exception of a failed \<open>new\<close>; it carries the state at the throw.
  Dereferencing a null or a freed control-block pointer is undefined behaviour: the model
  stops there with \<open>null_deref\<close> or \<open>dangling_deref\<close>.
\<close>

datatype error = bad_alloc world | null_deref | dangling_deref

definition deref :: "world \<Rightarrow> addr \<Rightarrow> error + ControlBlock" where
  "deref w p =
     (if p = nullptr then Inl null_deref
      else case blocks w p of None \<Rightarrow> Inl dangling_deref | Some cb \<Rightarrow> Inr cb)"

text \<open>
  \<open>new ControlBlock{deleter}\<close>. The allocator's answer is a parameter: \<open>None\<close> when the
  allocation fails, \<open>Some a\<close> when it hands out the address \<open>a\<close>.
\<close>

definition new_ControlBlock ::
    "addr option \<Rightarrow> erased_deleter_t \<Rightarrow> world \<Rightarrow> error + (addr \<times> world)" where
  "new_ControlBlock alloc deleter w =
     (case alloc of
        None \<Rightarrow> Inl (bad_alloc w)
      | Some a \<Rightarrow> Inr (a, w\<lparr>blocks := (blocks w)(a \<mapsto> ControlBlock_ctor deleter)\<rparr>))"

text \<open>\<open>delete_owned\<close> invokes the stored closure; \<open>delete m_control_block\<close> frees the block.\<close>

definition delete_owned :: "ControlBlock \<Rightarrow> world \<Rightarrow> world" where
  "delete_owned cb w = w\<lparr>deleted := deleted w @ [m_deleter cb]\<rparr>"

definition delete_ControlBlock :: "addr \<Rightarrow> world \<Rightarrow> world" where
  "delete_ControlBlock p w = w\<lparr>blocks := (blocks w)(p := None)\<rparr>"

section \<open>Operations of \<open>SharedPtr\<close>\<close>

definition set_m_control_block :: "hid \<Rightarrow> addr \<Rightarrow> world \<Rightarrow> world" where
  "set_m_control_block this p w =
     w\<lparr>handles := (handles w)(this := (handles w this)\<lparr>m_control_block := p\<rparr>)\<rparr>"

definition set_m_ptr :: "hid \<Rightarrow> addr \<Rightarrow> world \<Rightarrow> world" where
  "set_m_ptr this p w =
     w\<lparr>handles := (handles w)(this := (handles w this)\<lparr>m_ptr := p\<rparr>)\<rparr>"

text \<open>\<open>SharedPtr()\<close> and \<open>SharedPtr(std::nullptr_t)\<close>.\<close>

definition SharedPtr_default :: "hid \<Rightarrow> world \<Rightarrow> world" where
  "SharedPtr_default this w = set_m_ptr this nullptr (set_m_control_block this nullptr w)"

definition SharedPtr_nullptr :: "hid \<Rightarrow> world \<Rightarrow> world" where
  "SharedPtr_nullptr this w = set_m_ptr this nullptr (set_m_control_block this nullptr w)"

text \<open>\<open>SharedPtr(ptr_t instance, deleter_t deleter)\<close>.\<close>

definition SharedPtr_ptr ::
    "hid \<Rightarrow> addr \<Rightarrow> deleter \<Rightarrow> addr option \<Rightarrow> world \<Rightarrow> error + world" where
  "SharedPtr_ptr this instance deleter alloc w =
     (case new_ControlBlock alloc (make_deleter deleter instance) w of
        Inl e \<Rightarrow> Inl e
      | Inr (a, w1) \<Rightarrow> Inr (set_m_ptr this instance (set_m_control_block this a w1)))"

text \<open>\<open>SharedPtr(const SharedPtr& other)\<close>: the increment is not guarded.\<close>

definition SharedPtr_copy :: "hid \<Rightarrow> hid \<Rightarrow> world \<Rightarrow> error + world" where
  "SharedPtr_copy this other w =
     (let w1 = set_m_control_block this (m_control_block (handles w other)) w;
          w2 = set_m_ptr this (m_ptr (handles w1 other)) w1;
          p = m_control_block (handles w2 this)
      in case deref w2 p of
           Inl e \<Rightarrow> Inl e
         | Inr cb \<Rightarrow> Inr (w2\<lparr>blocks := (blocks w2)(p \<mapsto> increment_count cb)\<rparr>))"

text \<open>\<open>SharedPtr(SharedPtr&& other)\<close>.\<close>

definition SharedPtr_move :: "hid \<Rightarrow> hid \<Rightarrow> world \<Rightarrow> world" where
  "SharedPtr_move this other w =
     (let w1 = set_m_control_block this (m_control_block (handles w other)) w;
          w2 = set_m_ptr this (m_ptr (handles w1 other)) w1;
          w3 = set_m_control_block other nullptr w2
      in set_m_ptr other nullptr w3)"

text \<open>
  The converting constructors from \<open>SharedPtr<U>\<close> to \<open>SharedPtr<const U>\<close> have the
  bodies of the copy and move constructors.
\<close>

definition SharedPtr_copy_const :: "hid \<Rightarrow> hid \<Rightarrow> world \<Rightarrow> error + world" where
  "SharedPtr_copy_const this other w =
     (let w1 = set_m_control_block this (m_control_block (handles w other)) w;
          w2 = set_m_ptr this (m_ptr (handles w1 other)) w1;
          p = m_control_block (handles w2 this)
      in case deref w2 p of
           Inl e \<Rightarrow> Inl e
         | Inr cb \<Rightarrow> Inr (w2\<lparr>blocks := (blocks w2)(p \<mapsto> increment_count cb)\<rparr>))"

definition SharedPtr_move_const :: "hid \<Rightarrow> hid \<Rightarrow> world \<Rightarrow> world" where
  "SharedPtr_move_const this other w =
     (let w1 = set_m_control_block this (m_control_block (handles w other)) w;
          w2 = set_m_ptr this (m_ptr (handles w1 other)) w1;
          w3 = set_m_control_block other nullptr w2
      in set_m_ptr other nullptr w3)"

text \<open>\<open>reset()\<close>: the two fields are cleared inside the branch of the last owner.\<close>

definition reset :: "hid \<Rightarrow> world \<Rightarrow> error + world" where
  "reset this w =
     (let p = m_control_block (handles w this) in
      if p \<noteq> nullptr then
        (case deref w p of
           Inl e \<Rightarrow> Inl e
         | Inr cb \<Rightarrow>
             (let (count_prior_to_decrement, cb1) = fetch_sub_1 cb;
                  w1 = w\<lparr>blocks := (blocks w)(p \<mapsto> cb1)\<rparr>
              in if 1 = count_prior_to_decrement then
                   (let w2 = delete_owned cb1 w1;
                        w3 = delete_ControlBlock p w2;
                        w4 = set_m_control_block this nullptr w3
                    in Inr (set_m_ptr this nullptr w4))
                 else Inr w1))
      else Inr w)"

text \<open>\<open>get()\<close>, \<open>operator==\<close>, \<open>use_count()\<close>.\<close>

definition get :: "hid \<Rightarrow> world \<Rightarrow> addr" where
  "get this w = m_ptr (handles w this)"

definition equal_SharedPtr :: "hid \<Rightarrow> hid \<Rightarrow> world \<Rightarrow> bool" where
  "equal_SharedPtr lhs rhs w = (get lhs w = get rhs w)"

definition use_count :: "hid \<Rightarrow> world \<Rightarrow> error + 64 word" where
  "use_count this w =
     (let p = m_control_block (handles w this) in
      if p \<noteq> nullptr then
        (case deref w p of Inl e \<Rightarrow> Inl e | Inr cb \<Rightarrow> Inr (get_count cb))
      else Inr 0)"

text \<open>\<open>~SharedPtr()\<close>.\<close>

definition SharedPtr_dtor :: "hid \<Rightarrow> world \<Rightarrow> error + world" where
  "SharedPtr_dtor this w = reset this w"

text \<open>\<open>operator=(std::nullptr_t)\<close>, \<open>operator=(ptr_t)\<close>, \<open>operator=(const SharedPtr&)\<close>.\<close>

definition assign_nullptr :: "hid \<Rightarrow> world \<Rightarrow> error + world" where
  "assign_nullptr this w = reset this w"

definition assign_ptr :: "hid \<Rightarrow> addr \<Rightarrow> addr option \<Rightarrow> world \<Rightarrow> error + world" where
  "assign_ptr this ptr alloc w =
     (if get this w \<noteq> ptr then
        (case new_ControlBlock alloc (make_deleter default_delete ptr) w of
           Inl e \<Rightarrow> Inl e
         | Inr (new_control_block, w1) \<Rightarrow>
             (case reset this w1 of
                Inl e \<Rightarrow> Inl e
              | Inr w2 \<Rightarrow>
                  Inr (set_m_ptr this ptr (set_m_control_block this new_control_block w2))))
      else Inr w)"

definition assign_copy :: "hid \<Rightarrow> hid \<Rightarrow> world \<Rightarrow> error + world" where
  "assign_copy this other w =
     (if \<not> equal_SharedPtr this other w then
        (case SharedPtr_dtor this w of
           Inl e \<Rightarrow> Inl e
         | Inr w1 \<Rightarrow> SharedPtr_copy this other w1)
      else Inr w)"

text \<open>\<open>swap(lhs, rhs)\<close>: \<open>std::swap\<close> on each field, through a temporary.\<close>

definition swap_SharedPtr :: "hid \<Rightarrow> hid \<Rightarrow> world \<Rightarrow> world" where
  "swap_SharedPtr lhs rhs w =
     (let tmp = m_control_block (handles w lhs);
          w1 = set_m_control_block lhs (m_control_block (handles w rhs)) w;
          w2 = set_m_control_block rhs tmp w1;
          tmp' = m_ptr (handles w2 lhs);
          w3 = set_m_ptr lhs (m_ptr (handles w2 rhs)) w2
      in set_m_ptr rhs tmp' w3)"

section \<open>Scenarios and reachable states\<close>

text \<open>
  The test \<open>a shared pointer shared between instances\<close> copies one handle into several
  others and destroys them again: \<open>copy_each\<close> copy-constructs each handle of a list
  from \<open>other\<close>, \<open>destroy_each\<close> runs the destructor of each handle of a list.
\<close>

fun copy_each :: "hid list \<Rightarrow> hid \<Rightarrow> world \<Rightarrow> error + world" where
  "copy_each [] other w = Inr w"
| "copy_each (c # cs) other w =
     (case SharedPtr_copy c other w of Inl e \<Rightarrow> Inl e | Inr w1 \<Rightarrow> copy_each cs other w1)"

fun destroy_each :: "hid list \<Rightarrow> world \<Rightarrow> error + world" where
  "destroy_each [] w = Inr w"
| "destroy_each (c # cs) w =
     (case SharedPtr_dtor c w of Inl e \<Rightarrow> Inl e | Inr w1 \<Rightarrow> destroy_each cs w1)"

text \<open>
  Concrete states: the state in which no handle owns anything, and states that the
  operations make from it, with handles 0 and 1, objects 5 and 6 and blocks 1 and 2.
\<close>

definition empty_world :: world where
  "empty_world =
     \<lparr>handles = (\<lambda>_. \<lparr>m_control_block = nullptr, m_ptr = nullptr\<rparr>),
      blocks = Map.empty, deleted = []\<rparr>"

definition one_owner :: world where
  "one_owner =
     \<lparr>handles = (handles empty_world)(0 := \<lparr>m_control_block = 1, m_ptr = 5\<rparr>),
      blocks = [1 \<mapsto> \<lparr>m_count = 1, m_deleter = (default_delete, 5)\<rparr>],
      deleted = []\<rparr>"

definition two_owners :: world where
  "two_owners =
     \<lparr>handles = (handles one_owner)(1 := \<lparr>m_control_block = 1, m_ptr = 5\<rparr>),
      blocks = [1 \<mapsto> \<lparr>m_count = 2, m_deleter = (default_delete, 5)\<rparr>],
      deleted = []\<rparr>"

definition two_owners_reset :: world where
  "two_owners_reset =
     two_owners\<lparr>blocks := [1 \<mapsto> \<lparr>m_count = 1, m_deleter = (default_delete, 5)\<rparr>]\<rparr>"

definition two_owners_reset_twice :: world where
  "two_owners_reset_twice =
     \<lparr>handles = (handles two_owners)(0 := \<lparr>m_control_block = nullptr, m_ptr = nullptr\<rparr>),
      blocks = Map.empty, deleted = [(default_delete, 5)]\<rparr>"

definition null_owner :: world where
  "null_owner =
     \<lparr>handles = (handles empty_world)(0 := \<lparr>m_control_block = 1, m_ptr = nullptr\<rparr>),
      blocks = [1 \<mapsto> \<lparr>m_count = 1, m_deleter = (default_delete, nullptr)\<rparr>],
      deleted = []\<rparr>"

definition custom_owner :: world where
  "custom_owner =
     \<lparr>handles = (handles empty_world)(0 := \<lparr>m_control_block = 1, m_ptr = 5\<rparr>),
      blocks = [1 \<mapsto> \<lparr>m_count = 1, m_deleter = (custom_deleter 7, 5)\<rparr>],
      deleted = []\<rparr>"

definition two_objects :: world where
  "two_objects =
     \<lparr>handles = (handles one_owner)(1 := \<lparr>m_control_block = 2, m_ptr = 6\<rparr>),
      blocks = [1 \<mapsto> \<lparr>m_count = 1, m_deleter = (default_delete, 5)\<rparr>,
                2 \<mapsto> \<lparr>m_count = 1, m_deleter = (default_delete, 6)\<rparr>],
      deleted = []\<rparr>"

definition overflowed :: world where
  "overflowed =
     \<lparr>handles = (handles one_owner)(1 := \<lparr>m_control_block = 1, m_ptr = 5\<rparr>),
      blocks = [1 \<mapsto> \<lparr>m_count = 0, m_deleter = (default_delete, 5)\<rparr>],
      deleted = []\<rparr>"

text \<open>
  An operation that may throw completes in \<open>w'\<close> when it returns \<open>w'\<close> or throws
  \<open>bad_alloc\<close> in \<open>w'\<close>. Undefined behaviour has no state after it.
\<close>

definition completes :: "error + world \<Rightarrow> world \<Rightarrow> bool" where
  "completes r w' = (r = Inr w' \<or> r = Inl (bad_alloc w'))"

text \<open>
  The states reached from \<open>empty_world\<close> through the public operations, when the raw
  pointers given to the owning constructor and to \<open>operator=(ptr_t)\<close> are not null and no
  count overflows: no copy is taken of a handle whose \<open>use_count()\<close> is the largest value
  of \<open>std::size_t\<close>. The allocator may fail or return any address but null.
\<close>

inductive reachable :: "world \<Rightarrow> bool" where
  init: "reachable empty_world"
| default_ctor: "reachable w \<Longrightarrow> reachable (SharedPtr_default h w)"
| nullptr_ctor: "reachable w \<Longrightarrow> reachable (SharedPtr_nullptr h w)"
| ptr_ctor: "reachable w \<Longrightarrow> p \<noteq> nullptr \<Longrightarrow> alloc \<noteq> Some nullptr \<Longrightarrow>
     completes (SharedPtr_ptr h p d alloc w) w' \<Longrightarrow> reachable w'"
| copy_ctor: "reachable w \<Longrightarrow> use_count other w \<noteq> Inr (- 1) \<Longrightarrow>
     SharedPtr_copy h other w = Inr w' \<Longrightarrow> reachable w'"
| copy_const_ctor: "reachable w \<Longrightarrow> use_count other w \<noteq> Inr (- 1) \<Longrightarrow>
     SharedPtr_copy_const h other w = Inr w' \<Longrightarrow> reachable w'"
| move_ctor: "reachable w \<Longrightarrow> reachable (SharedPtr_move h other w)"
| move_const_ctor: "reachable w \<Longrightarrow> reachable (SharedPtr_move_const h other w)"
| dtor: "reachable w \<Longrightarrow> SharedPtr_dtor h w = Inr w' \<Longrightarrow> reachable w'"
| reset: "reachable w \<Longrightarrow> reset h w = Inr w' \<Longrightarrow> reachable w'"
| assign_nullptr: "reachable w \<Longrightarrow> assign_nullptr h w = Inr w' \<Longrightarrow> reachable w'"
| assign_ptr: "reachable w \<Longrightarrow> p \<noteq> nullptr \<Longrightarrow> alloc \<noteq> Some nullptr \<Longrightarrow>
     completes (assign_ptr h p alloc w) w' \<Longrightarrow> reachable w'"
| assign_copy: "reachable w \<Longrightarrow> use_count other w \<noteq> Inr (- 1) \<Longrightarrow>
     assign_copy h other w = Inr w' \<Longrightarrow> reachable w'"
| swap: "reachable w \<Longrightarrow> reachable (swap_SharedPtr lhs rhs w)"

text \<open>The invariant of the handle fields: the raw pointer is null iff the block pointer is.\<close>

definition handle_inv :: "world \<Rightarrow> bool" where
  "handle_inv w =
     (\<forall>h. (m_ptr (handles w h) = nullptr) = (m_control_block (handles w h) = nullptr))"

text \<open>The invariant of the heap: no control block that is allocated has count 0.\<close>

definition count_inv :: "world \<Rightarrow> bool" where
  "count_inv w = (\<forall>a cb. blocks w a = Some cb \<longrightarrow> m_count cb \<noteq> 0)"

section \<open>Auxiliary facts\<close>

lemma SharedPtr_eq_iff:
  "(r = s) = (m_control_block r = m_control_block s \<and> m_ptr r = m_ptr (s::SharedPtr))"
  by (cases r, cases s) simp

lemma world_eq_iff:
  "(w = v) = (handles w = handles v \<and> blocks w = blocks v \<and> deleted w = deleted (v::world))"
  by (cases w, cases v) simp

lemmas op_defs = SharedPtr_ptr_def new_ControlBlock_def ControlBlock_ctor_def make_deleter_def
  set_m_ptr_def set_m_control_block_def SharedPtr_copy_def deref_def increment_count_def
  reset_def fetch_sub_1_def delete_owned_def delete_ControlBlock_def Let_def

text \<open>The three paths of \<open>reset\<close>, and the copy constructor on a live block.\<close>

lemma reset_empty: "m_control_block (handles w h) = nullptr \<Longrightarrow> reset h w = Inr w"
  by (simp add: reset_def)

lemma reset_shared:
  assumes "m_control_block (handles w h) = p" "p \<noteq> nullptr" "blocks w p = Some cb"
    "m_count cb \<noteq> 1"
  shows "reset h w = Inr (w\<lparr>blocks := (blocks w)(p \<mapsto> cb\<lparr>m_count := m_count cb - 1\<rparr>)\<rparr>)"
  using assms by (auto simp add: reset_def Let_def deref_def fetch_sub_1_def)

lemma reset_last_owner:
  assumes "m_control_block (handles w h) = p" "p \<noteq> nullptr" "blocks w p = Some cb"
    "m_count cb = 1"
  shows "reset h w =
           Inr (w\<lparr>handles := (handles w)(h := \<lparr>m_control_block = nullptr, m_ptr = nullptr\<rparr>),
                  blocks := (blocks w)(p := None),
                  deleted := deleted w @ [m_deleter cb]\<rparr>)"
  using assms
  by (simp add: reset_def Let_def deref_def fetch_sub_1_def delete_owned_def
      delete_ControlBlock_def set_m_ptr_def set_m_control_block_def SharedPtr_eq_iff
      world_eq_iff fun_eq_iff)

lemma reset_no_throw: "reset h w \<noteq> Inl (bad_alloc w')"
  by (simp add: reset_def Let_def deref_def fetch_sub_1_def split: option.splits)

lemma SharedPtr_copy_live:
  assumes "m_control_block (handles w other) = p" "p \<noteq> nullptr" "blocks w p = Some cb"
  shows "SharedPtr_copy this other w =
           Inr (w\<lparr>handles := (handles w)(this := handles w other),
                  blocks := (blocks w)(p \<mapsto> cb\<lparr>m_count := m_count cb + 1\<rparr>)\<rparr>)"
  using assms
  by (auto simp add: SharedPtr_copy_def Let_def set_m_ptr_def set_m_control_block_def deref_def
      increment_count_def SharedPtr_eq_iff world_eq_iff fun_eq_iff)

text \<open>The concrete states are what the operations compute.\<close>

lemma make_one_owner: "SharedPtr_ptr 0 5 default_delete (Some 1) empty_world = Inr one_owner"
  by (simp add: empty_world_def one_owner_def op_defs world_eq_iff fun_eq_iff SharedPtr_eq_iff)

lemma make_two_owners: "SharedPtr_copy 1 0 one_owner = Inr two_owners"
  by (simp add: empty_world_def one_owner_def two_owners_def op_defs world_eq_iff fun_eq_iff
      SharedPtr_eq_iff)

lemma make_two_objects: "SharedPtr_ptr 1 6 default_delete (Some 2) one_owner = Inr two_objects"
  by (simp add: empty_world_def one_owner_def two_objects_def op_defs world_eq_iff fun_eq_iff
      SharedPtr_eq_iff)

lemma make_custom_owner:
  "SharedPtr_ptr 0 5 (custom_deleter 7) (Some 1) empty_world = Inr custom_owner"
  by (simp add: empty_world_def custom_owner_def op_defs world_eq_iff fun_eq_iff
      SharedPtr_eq_iff)

lemma reachable_two_owners: "reachable two_owners"
proof -
  have "completes (SharedPtr_ptr 0 5 default_delete (Some 1) empty_world) one_owner"
    unfolding completes_def using make_one_owner by (rule disjI1)
  then have r1: "reachable one_owner"
    by (intro reachable.ptr_ctor [OF reachable.init, of 5 "Some 1" 0 default_delete]) simp_all
  have "use_count 0 one_owner \<noteq> Inr (- 1)"
    by (simp add: empty_world_def one_owner_def use_count_def deref_def get_count_def)
  with r1 show ?thesis
    using make_two_owners by (rule reachable.copy_ctor)
qed

section \<open>\<open>reset\<close>\<close>

text \<open>
  C1. \<open>reset()\<close> on a non-empty handle decrements the count, and runs the deleter and frees
  the block when the count before was 1 (\<open>reset_last_owner\<close>); on an empty handle it does
  nothing (\<open>reset_empty\<close>). It does not clear the fields of a handle that is not the last
  owner: from the state made by constructing handle 0 on object 5 and copying it into
  handle 1, \<open>reset\<close> of handle 0 brings the count from 2 to 1 and leaves handle 0 with its
  block pointer and its raw pointer, \<open>get()\<close> still 5 and \<open>use_count()\<close> 1. A second
  \<open>reset\<close> of the same handle is then no no-op: it runs the deleter on object 5 and frees
  the block, which handle 1 still points to.
\<close>

theorem reset_shared_handle_keeps_fields:
  "SharedPtr_ptr 0 5 default_delete (Some 1) empty_world = Inr one_owner \<and>
   SharedPtr_copy 1 0 one_owner = Inr two_owners \<and>
   reset 0 two_owners = Inr two_owners_reset \<and>
   handles two_owners_reset 0 = \<lparr>m_control_block = 1, m_ptr = 5\<rparr> \<and>
   get 0 two_owners_reset = 5 \<and>
   use_count 0 two_owners_reset = Inr 1 \<and>
   reset 0 two_owners_reset = Inr two_owners_reset_twice \<and>
   deleted two_owners_reset_twice = [(default_delete, 5)] \<and>
   get 1 two_owners_reset_twice = 5 \<and>
   use_count 1 two_owners_reset_twice = Inl dangling_deref"
  by (simp add: make_one_owner make_two_owners)
     (simp add: empty_world_def one_owner_def two_owners_def two_owners_reset_def
        two_owners_reset_twice_def op_defs world_eq_iff fun_eq_iff SharedPtr_eq_iff get_def
        use_count_def get_count_def)

section \<open>Copy and move construction\<close>

text \<open>
  C2. Copy construction from an empty handle does not yield an empty handle: the
  constructor copies the two null fields and then calls \<open>increment_count\<close> through the
  null block pointer. For every state and every pair of handles, copying from a handle
  that was just default-constructed ends in the null dereference.
\<close>

theorem copy_of_empty_handle_dereferences_null:
  "SharedPtr_copy this other (SharedPtr_default other w) = Inl null_deref"
  by (simp add: SharedPtr_copy_def SharedPtr_default_def Let_def set_m_ptr_def
      set_m_control_block_def deref_def)

text \<open>
  C7. Move construction of \<open>this\<close> from another handle \<open>other\<close> leaves \<open>other\<close> with both
  fields null, gives \<open>this\<close> the fields \<open>other\<close> had, and touches neither the control blocks
  nor the deleter log; the count seen through \<open>this\<close> afterwards is the count seen through
  \<open>other\<close> before. This holds for every source handle, the non-empty ones among them.
\<close>

theorem move_steals_without_counting:
  "this \<noteq> other \<Longrightarrow>
   (let w' = SharedPtr_move this other w in
    handles w' other = \<lparr>m_control_block = nullptr, m_ptr = nullptr\<rparr> \<and>
    get other w' = nullptr \<and>
    handles w' this = handles w other \<and>
    get this w' = get other w \<and>
    blocks w' = blocks w \<and>
    deleted w' = deleted w \<and>
    use_count this w' = use_count other w)"
  by (simp add: SharedPtr_move_def Let_def set_m_ptr_def set_m_control_block_def get_def
      use_count_def deref_def)

theorem move_steals_without_counting_witness:
  "(1::hid) \<noteq> 0 \<and>
   handles (SharedPtr_move 1 0 one_owner) 0 = \<lparr>m_control_block = nullptr, m_ptr = nullptr\<rparr> \<and>
   get 1 (SharedPtr_move 1 0 one_owner) = 5 \<and>
   blocks (SharedPtr_move 1 0 one_owner) = blocks one_owner \<and>
   use_count 1 (SharedPtr_move 1 0 one_owner) = Inr 1"
proof -
  have ne: "(1::hid) \<noteq> 0" by simp
  have u: "use_count 0 one_owner = Inr 1" and g: "get 0 one_owner = 5"
    by (simp_all add: empty_world_def one_owner_def use_count_def get_def deref_def
        get_count_def)
  show ?thesis
    using move_steals_without_counting [OF ne, of one_owner] u g by (simp add: Let_def)
qed

section \<open>Assignment\<close>

text \<open>
  C4. \<open>operator=(ptr_t)\<close> with a pointer other than the current one allocates the new
  control block before it calls \<open>reset\<close>: when the allocation fails, \<open>bad_alloc\<close> leaves
  the operator in the very state it was called in, so the handle keeps its fields, its
  block keeps its count and no deleter has run.
\<close>

theorem assign_ptr_alloc_failure_keeps_state:
  "get h w \<noteq> ptr \<Longrightarrow> assign_ptr h ptr None w = Inl (bad_alloc w)"
  by (simp add: assign_ptr_def new_ControlBlock_def)

theorem assign_ptr_alloc_failure_keeps_state_witness:
  "SharedPtr_ptr 0 5 (custom_deleter 7) (Some 1) empty_world = Inr custom_owner \<and>
   get 0 custom_owner \<noteq> 6 \<and>
   assign_ptr 0 6 None custom_owner = Inl (bad_alloc custom_owner)"
proof -
  have g: "get 0 custom_owner \<noteq> 6"
    by (simp add: empty_world_def custom_owner_def get_def)
  show ?thesis
    using make_custom_owner g assign_ptr_alloc_failure_keeps_state [OF g] by simp
qed

text \<open>
  C5. Self-assignment \<open>h = h\<close> returns the state unchanged, and so does the assignment
  from any handle \<open>h'\<close> with the same managed address: the fields, the counts and the
  deleter log are what they were.
\<close>

theorem assign_copy_self_noop:
  "assign_copy h h w = Inr w \<and> (get h' w = get h w \<longrightarrow> assign_copy h h' w = Inr w)"
  by (simp add: assign_copy_def equal_SharedPtr_def)

theorem assign_copy_self_noop_witness:
  "get 1 two_owners = get 0 two_owners \<and>
   assign_copy 0 0 two_owners = Inr two_owners \<and>
   assign_copy 0 1 two_owners = Inr two_owners"
proof -
  have g: "get 1 two_owners = get 0 two_owners"
    by (simp add: empty_world_def one_owner_def two_owners_def get_def)
  show ?thesis using g assign_copy_self_noop [of 0 two_owners 1] by simp
qed

text \<open>
  C9. Assigning a handle its own raw pointer, \<open>h = h.get()\<close>, is a no-op whatever the
  allocator would answer: nothing is allocated, no count changes, no deleter runs, and the
  handle's fields are what they were.
\<close>

theorem assign_ptr_own_value_noop: "assign_ptr h (get h w) alloc w = Inr w"
  by (simp add: assign_ptr_def)

text \<open>
  C10. \<open>operator=(ptr_t)\<close> with a pointer other than the current one, on a handle that is
  empty or whose block is live, with the allocator handing out a fresh address \<open>a\<close>:
  the operator returns, the handle then holds \<open>a\<close> and \<open>ptr\<close>, and the block at \<open>a\<close> has
  count 1 and the closure of \<open>default_delete\<close> on \<open>ptr\<close>, whatever deleter the old block had.
\<close>

theorem assign_ptr_binds_default_delete:
  assumes "get h w \<noteq> ptr" "a \<noteq> nullptr" "blocks w a = None"
    and "m_control_block (handles w h) \<noteq> nullptr \<longrightarrow>
         blocks w (m_control_block (handles w h)) \<noteq> None"
  shows "\<exists>w'. assign_ptr h ptr (Some a) w = Inr w' \<and>
           handles w' h = \<lparr>m_control_block = a, m_ptr = ptr\<rparr> \<and>
           blocks w' a = Some \<lparr>m_count = 1, m_deleter = make_deleter default_delete ptr\<rparr>"
  using assms
  by (auto simp add: assign_ptr_def new_ControlBlock_def reset_def Let_def deref_def
      fetch_sub_1_def delete_owned_def delete_ControlBlock_def set_m_ptr_def
      set_m_control_block_def ControlBlock_ctor_def
      split: sum.splits option.splits prod.splits)

theorem assign_ptr_binds_default_delete_witness:
  "SharedPtr_ptr 0 5 (custom_deleter 7) (Some 1) empty_world = Inr custom_owner \<and>
   (\<exists>w'. assign_ptr 0 6 (Some 2) custom_owner = Inr w' \<and>
      handles w' 0 = \<lparr>m_control_block = 2, m_ptr = 6\<rparr> \<and>
      blocks w' 2 = Some \<lparr>m_count = 1, m_deleter = (default_delete, 6)\<rparr>)"
proof -
  have g: "get 0 custom_owner \<noteq> 6" and a: "(2::addr) \<noteq> nullptr"
    and f: "blocks custom_owner 2 = None"
    and l: "m_control_block (handles custom_owner 0) \<noteq> nullptr \<longrightarrow>
            blocks custom_owner (m_control_block (handles custom_owner 0)) \<noteq> None"
    by (simp_all add: empty_world_def custom_owner_def get_def)
  show ?thesis
    using make_custom_owner assign_ptr_binds_default_delete [OF g a f l]
    by (simp add: make_deleter_def)
qed

section \<open>Swap\<close>

text \<open>
  C8. \<open>swap(a, b)\<close> exchanges the fields of the two handles and changes neither a control
  block nor the deleter log: \<open>a.get()\<close> is then what \<open>b.get()\<close> was and conversely, every
  counter has the value it had, so the count seen through \<open>a\<close> is the one that was seen
  through \<open>b\<close> and conversely (1 and 1 when each was a sole owner), and no object is deleted.
\<close>

theorem swap_exchanges_fields:
  "(let w' = swap_SharedPtr a b w in
    handles w' a = handles w b \<and> handles w' b = handles w a \<and>
    get a w' = get b w \<and> get b w' = get a w \<and>
    blocks w' = blocks w \<and> deleted w' = deleted w \<and>
    use_count a w' = use_count b w \<and> use_count b w' = use_count a w)"
  by (simp add: swap_SharedPtr_def Let_def set_m_ptr_def set_m_control_block_def get_def
      use_count_def deref_def)

theorem swap_exchanges_fields_witness:
  "SharedPtr_ptr 1 6 default_delete (Some 2) one_owner = Inr two_objects \<and>
   get 0 (swap_SharedPtr 0 1 two_objects) = 6 \<and>
   get 1 (swap_SharedPtr 0 1 two_objects) = 5 \<and>
   use_count 0 (swap_SharedPtr 0 1 two_objects) = Inr 1 \<and>
   use_count 1 (swap_SharedPtr 0 1 two_objects) = Inr 1 \<and>
   deleted (swap_SharedPtr 0 1 two_objects) = []"
proof -
  have "get 0 two_objects = 5" "get 1 two_objects = 6"
    "use_count 0 two_objects = Inr 1" "use_count 1 two_objects = Inr 1"
    "deleted two_objects = []"
    by (simp_all add: empty_world_def one_owner_def two_objects_def get_def use_count_def
        deref_def get_count_def)
  then show ?thesis
    using swap_exchanges_fields [of 0 1 two_objects] make_two_objects by (simp add: Let_def)
qed

section \<open>The count under copies and destructions\<close>

lemma copy_each_live:
  assumes "m_control_block (handles w h) = p" "p \<noteq> nullptr" "blocks w p = Some cb"
    "h \<notin> set cs"
  shows "\<exists>w'. copy_each cs h w = Inr w' \<and>
           (\<forall>x. handles w' x = (if x \<in> set cs then handles w h else handles w x)) \<and>
           blocks w' = (blocks w)(p \<mapsto> cb\<lparr>m_count := m_count cb + of_nat (length cs)\<rparr>) \<and>
           deleted w' = deleted w"
  using assms
proof (induction cs arbitrary: w cb)
  case Nil
  then show ?case by (simp add: fun_eq_iff)
next
  case (Cons c cs)
  let ?cb1 = "cb\<lparr>m_count := m_count cb + 1\<rparr>"
  let ?w1 = "w\<lparr>handles := (handles w)(c := handles w h), blocks := (blocks w)(p \<mapsto> ?cb1)\<rparr>"
  have step: "SharedPtr_copy c h w = Inr ?w1"
    using Cons.prems by (simp add: SharedPtr_copy_live)
  have hc: "h \<noteq> c" and hcs: "h \<notin> set cs"
    using Cons.prems by auto
  have "\<exists>w'. copy_each cs h ?w1 = Inr w' \<and>
           (\<forall>x. handles w' x = (if x \<in> set cs then handles ?w1 h else handles ?w1 x)) \<and>
           blocks w' = (blocks ?w1)(p \<mapsto> ?cb1\<lparr>m_count := m_count ?cb1 + of_nat (length cs)\<rparr>) \<and>
           deleted w' = deleted ?w1"
    using Cons.prems hc hcs by (intro Cons.IH) simp_all
  then obtain w' where w': "copy_each cs h ?w1 = Inr w'"
      "\<forall>x. handles w' x = (if x \<in> set cs then handles ?w1 h else handles ?w1 x)"
      "blocks w' = (blocks ?w1)(p \<mapsto> ?cb1\<lparr>m_count := m_count ?cb1 + of_nat (length cs)\<rparr>)"
      "deleted w' = deleted ?w1"
    by blast
  show ?case
    using step w' hc by (simp add: add.assoc fun_eq_iff)
qed

lemma destroy_each_shared:
  assumes "\<forall>c\<in>set ds. m_control_block (handles w c) = p" "p \<noteq> nullptr"
    "blocks w p = Some cb" "length ds < unat (m_count cb)"
  shows "destroy_each ds w =
           Inr (w\<lparr>blocks := (blocks w)(p \<mapsto> cb\<lparr>m_count := m_count cb - of_nat (length ds)\<rparr>)\<rparr>)"
  using assms
proof (induction ds arbitrary: w cb)
  case Nil
  then show ?case by (simp add: world_eq_iff fun_eq_iff)
next
  case (Cons c ds)
  let ?cb1 = "cb\<lparr>m_count := m_count cb - 1\<rparr>"
  let ?w1 = "w\<lparr>blocks := (blocks w)(p \<mapsto> ?cb1)\<rparr>"
  have gt: "1 < unat (m_count cb)"
    using Cons.prems by simp
  then have ne1: "m_count cb \<noteq> 1" and ne0: "m_count cb \<noteq> 0"
    by auto
  have step: "SharedPtr_dtor c w = Inr ?w1"
    using Cons.prems ne1 by (simp add: SharedPtr_dtor_def reset_shared)
  have u: "unat (m_count cb - 1) = unat (m_count cb) - 1"
    using ne0 by (simp add: unat_minus_one)
  have "destroy_each ds ?w1 =
          Inr (?w1\<lparr>blocks := (blocks ?w1)(p \<mapsto> ?cb1\<lparr>m_count := m_count ?cb1 - of_nat (length ds)\<rparr>)\<rparr>)"
    using Cons.prems u by (intro Cons.IH) simp_all
  then show ?case
    using step by (simp add: diff_diff_eq world_eq_iff fun_eq_iff)
qed

text \<open>
  C6. Owning construction of handle \<open>h\<close> from a raw pointer \<open>p\<close>, the allocator handing
  out a non-null address \<open>a\<close>, puts a control block with count 1 at \<open>a\<close>, and
  \<open>use_count()\<close> is 1. Copying \<open>h\<close> into \<open>N\<close> further handles \<open>cs\<close> succeeds, and then
  every one of the \<open>N + 1\<close> handles has \<open>get() = p\<close> and \<open>use_count() = N + 1\<close>.
  Destroying the \<open>N\<close> copies, in any order \<open>ds\<close>, succeeds and brings \<open>use_count()\<close> of
  \<open>h\<close> back to 1. \<open>N + 1\<close> is a value of \<open>std::size_t\<close>.
\<close>

theorem use_count_tracks_copies:
  assumes a: "a \<noteq> nullptr" and d: "distinct (h # cs)"
    and ds: "distinct ds" "set ds = set cs" and n: "length cs + 1 < 2 ^ 64"
  shows "\<exists>w1 w2 w3.
           SharedPtr_ptr h p d (Some a) w = Inr w1 \<and>
           blocks w1 a = Some \<lparr>m_count = 1, m_deleter = make_deleter d p\<rparr> \<and>
           use_count h w1 = Inr 1 \<and>
           copy_each cs h w1 = Inr w2 \<and>
           (\<forall>c\<in>set (h # cs). get c w2 = p \<and>
              (\<exists>k. use_count c w2 = Inr k \<and> unat k = length cs + 1)) \<and>
           destroy_each ds w2 = Inr w3 \<and> use_count h w3 = Inr 1"
proof -
  let ?cb = "\<lparr>m_count = 1, m_deleter = make_deleter d p\<rparr>"
  let ?cbN = "?cb\<lparr>m_count := 1 + of_nat (length cs)\<rparr>"
  let ?hd = "\<lparr>m_control_block = a, m_ptr = p\<rparr>"
  let ?w1 = "w\<lparr>handles := (handles w)(h := ?hd), blocks := (blocks w)(a \<mapsto> ?cb)\<rparr>"
  have c1: "SharedPtr_ptr h p d (Some a) w = Inr ?w1"
    by (simp add: SharedPtr_ptr_def new_ControlBlock_def ControlBlock_ctor_def set_m_ptr_def
        set_m_control_block_def world_eq_iff fun_eq_iff SharedPtr_eq_iff)
  have b1: "blocks ?w1 a = Some ?cb"
    by simp
  have u1: "use_count h ?w1 = Inr 1"
    using a by (simp add: use_count_def deref_def get_count_def)
  have "\<exists>w'. copy_each cs h ?w1 = Inr w' \<and>
           (\<forall>x. handles w' x = (if x \<in> set cs then handles ?w1 h else handles ?w1 x)) \<and>
           blocks w' = (blocks ?w1)(a \<mapsto> ?cb\<lparr>m_count := m_count ?cb + of_nat (length cs)\<rparr>) \<and>
           deleted w' = deleted ?w1"
    using a d by (intro copy_each_live) simp_all
  then obtain w2 where w2: "copy_each cs h ?w1 = Inr w2"
    and h2: "\<And>x. handles w2 x = (if x \<in> set cs then ?hd else handles ?w1 x)"
    and b2: "blocks w2 a = Some ?cbN"
    by auto
  have len: "length ds = length cs"
    using d ds by (metis distinct.simps(2) distinct_card)
  have un: "unat (1 + of_nat (length cs) :: 64 word) = length cs + 1"
    using n by (simp add: unat_word_ariths unat_of_nat)
  have all2: "\<forall>c\<in>set (h # cs). get c w2 = p \<and>
              (\<exists>k. use_count c w2 = Inr k \<and> unat k = length cs + 1)"
    using a h2 b2 un by (auto simp add: get_def use_count_def deref_def get_count_def)
  have "destroy_each ds w2 =
          Inr (w2\<lparr>blocks := (blocks w2)(a \<mapsto> ?cbN\<lparr>m_count := m_count ?cbN - of_nat (length ds)\<rparr>)\<rparr>)"
    using a h2 b2 ds un len by (intro destroy_each_shared) simp_all
  then have d3: "destroy_each ds w2 = Inr (w2\<lparr>blocks := (blocks w2)(a \<mapsto> ?cb)\<rparr>)"
    using len by simp
  have u3: "use_count h (w2\<lparr>blocks := (blocks w2)(a \<mapsto> ?cb)\<rparr>) = Inr 1"
    using a h2 d by (simp add: use_count_def deref_def get_count_def)
  show ?thesis
    using c1 b1 u1 w2 all2 d3 u3 by blast
qed

theorem use_count_tracks_copies_witness:
  "\<exists>w1 w2 w3.
     SharedPtr_ptr 0 5 default_delete (Some 1) empty_world = Inr w1 \<and>
     blocks w1 1 = Some \<lparr>m_count = 1, m_deleter = make_deleter default_delete 5\<rparr> \<and>
     use_count 0 w1 = Inr 1 \<and>
     copy_each [1, 2] 0 w1 = Inr w2 \<and>
     (\<forall>c\<in>set [0, 1, 2]. get c w2 = 5 \<and> (\<exists>k. use_count c w2 = Inr k \<and> unat k = 3)) \<and>
     destroy_each [2, 1] w2 = Inr w3 \<and> use_count 0 w3 = Inr 1"
proof -
  have ds: "set [2, 1] = set [1, 2::hid]"
    by auto
  have n: "length [1, 2::hid] + 1 < 2 ^ 64"
    by simp
  show ?thesis
    using use_count_tracks_copies [OF _ _ _ ds n, of 1 0 5 default_delete empty_world]
    by (simp add: numeral_3_eq_3)
qed

section \<open>The invariant of the handle fields\<close>

lemma inv_empty: "handle_inv empty_world"
  by (simp add: handle_inv_def empty_world_def)

lemma inv_default: "handle_inv w \<Longrightarrow> handle_inv (SharedPtr_default h w)"
  by (simp add: handle_inv_def SharedPtr_default_def set_m_ptr_def set_m_control_block_def)

lemma inv_nullptr: "handle_inv w \<Longrightarrow> handle_inv (SharedPtr_nullptr h w)"
  by (simp add: handle_inv_def SharedPtr_nullptr_def set_m_ptr_def set_m_control_block_def)

lemma inv_ptr:
  "handle_inv w \<Longrightarrow> p \<noteq> nullptr \<Longrightarrow> alloc \<noteq> Some nullptr \<Longrightarrow>
   completes (SharedPtr_ptr h p d alloc w) w' \<Longrightarrow> handle_inv w'"
  by (auto simp add: handle_inv_def completes_def SharedPtr_ptr_def new_ControlBlock_def
      set_m_ptr_def set_m_control_block_def split: option.splits)

lemma inv_copy: "handle_inv w \<Longrightarrow> SharedPtr_copy h other w = Inr w' \<Longrightarrow> handle_inv w'"
  by (auto simp add: handle_inv_def SharedPtr_copy_def Let_def deref_def
      set_m_ptr_def set_m_control_block_def split: option.splits if_splits)

lemma inv_copy_const:
  "handle_inv w \<Longrightarrow> SharedPtr_copy_const h other w = Inr w' \<Longrightarrow> handle_inv w'"
  by (auto simp add: handle_inv_def SharedPtr_copy_const_def Let_def deref_def
      set_m_ptr_def set_m_control_block_def split: option.splits if_splits)

lemma inv_move: "handle_inv w \<Longrightarrow> handle_inv (SharedPtr_move h other w)"
  by (simp add: handle_inv_def SharedPtr_move_def Let_def set_m_ptr_def set_m_control_block_def)

lemma inv_move_const: "handle_inv w \<Longrightarrow> handle_inv (SharedPtr_move_const h other w)"
  by (simp add: handle_inv_def SharedPtr_move_const_def Let_def set_m_ptr_def
      set_m_control_block_def)

lemma inv_reset: "handle_inv w \<Longrightarrow> reset h w = Inr w' \<Longrightarrow> handle_inv w'"
  by (auto simp add: handle_inv_def reset_def Let_def deref_def fetch_sub_1_def
      delete_owned_def delete_ControlBlock_def set_m_ptr_def set_m_control_block_def
      split: option.splits if_splits)

lemma inv_assign_ptr:
  assumes "handle_inv w" "p \<noteq> nullptr" "alloc \<noteq> Some nullptr"
    "completes (assign_ptr h p alloc w) w'"
  shows "handle_inv w'"
proof (cases "get h w \<noteq> p")
  case False
  then show ?thesis
    using assms by (simp add: assign_ptr_def completes_def)
next
  case True
  show ?thesis
  proof (cases alloc)
    case None
    then show ?thesis
      using assms True by (simp add: assign_ptr_def completes_def new_ControlBlock_def)
  next
    case (Some a)
    let ?w1 = "w\<lparr>blocks := (blocks w)(a \<mapsto> ControlBlock_ctor (make_deleter default_delete p))\<rparr>"
    have i1: "handle_inv ?w1"
      using assms(1) by (simp add: handle_inv_def)
    from assms(4) True Some obtain w2 where r: "reset h ?w1 = Inr w2"
      and w': "w' = set_m_ptr h p (set_m_control_block h a w2)"
      by (auto simp add: assign_ptr_def completes_def new_ControlBlock_def reset_no_throw
          split: sum.splits)
    have "handle_inv w2"
      using i1 r by (rule inv_reset)
    then show ?thesis
      using w' assms(2,3) Some
      by (simp add: handle_inv_def set_m_ptr_def set_m_control_block_def)
  qed
qed

lemma inv_assign_copy:
  assumes "handle_inv w" "assign_copy h other w = Inr w'"
  shows "handle_inv w'"
proof (cases "equal_SharedPtr h other w")
  case True
  then show ?thesis
    using assms by (simp add: assign_copy_def)
next
  case False
  then obtain w1 where d: "reset h w = Inr w1" and c: "SharedPtr_copy h other w1 = Inr w'"
    using assms(2) by (auto simp add: assign_copy_def SharedPtr_dtor_def split: sum.splits)
  have "handle_inv w1"
    using assms(1) d by (rule inv_reset)
  then show ?thesis
    using c by (rule inv_copy)
qed

lemma inv_swap: "handle_inv w \<Longrightarrow> handle_inv (swap_SharedPtr lhs rhs w)"
  by (simp add: handle_inv_def swap_SharedPtr_def Let_def set_m_ptr_def set_m_control_block_def)

text \<open>No operation brings the count of an allocated block to 0 and leaves it allocated.\<close>

lemma succ_eq_0_iff: "(x + 1 = 0) = (x = (- 1 :: 64 word))"
  by (simp add: eq_neg_iff_add_eq_0)

lemma blocks_set_m_ptr: "blocks (set_m_ptr h p w) = blocks w"
  by (simp add: set_m_ptr_def)

lemma blocks_set_m_control_block: "blocks (set_m_control_block h p w) = blocks w"
  by (simp add: set_m_control_block_def)

lemma cinv_empty: "count_inv empty_world"
  by (simp add: count_inv_def empty_world_def)

lemma cinv_default: "count_inv w \<Longrightarrow> count_inv (SharedPtr_default h w)"
  by (simp add: count_inv_def SharedPtr_default_def blocks_set_m_ptr blocks_set_m_control_block)

lemma cinv_nullptr: "count_inv w \<Longrightarrow> count_inv (SharedPtr_nullptr h w)"
  by (simp add: count_inv_def SharedPtr_nullptr_def blocks_set_m_ptr blocks_set_m_control_block)

lemma cinv_move: "count_inv w \<Longrightarrow> count_inv (SharedPtr_move h other w)"
  by (simp add: count_inv_def SharedPtr_move_def Let_def blocks_set_m_ptr
      blocks_set_m_control_block)

lemma cinv_move_const: "count_inv w \<Longrightarrow> count_inv (SharedPtr_move_const h other w)"
  by (simp add: count_inv_def SharedPtr_move_const_def Let_def blocks_set_m_ptr
      blocks_set_m_control_block)

lemma cinv_swap: "count_inv w \<Longrightarrow> count_inv (swap_SharedPtr lhs rhs w)"
  by (simp add: count_inv_def swap_SharedPtr_def Let_def blocks_set_m_ptr
      blocks_set_m_control_block)

lemma cinv_ptr:
  "count_inv w \<Longrightarrow> completes (SharedPtr_ptr h p d alloc w) w' \<Longrightarrow> count_inv w'"
  by (auto simp add: count_inv_def completes_def SharedPtr_ptr_def new_ControlBlock_def
      ControlBlock_ctor_def blocks_set_m_ptr blocks_set_m_control_block
      split: option.splits if_splits)

lemma cinv_copy:
  "count_inv w \<Longrightarrow> use_count other w \<noteq> Inr (- 1) \<Longrightarrow>
   SharedPtr_copy h other w = Inr w' \<Longrightarrow> count_inv w'"
  by (auto simp add: count_inv_def SharedPtr_copy_def Let_def deref_def use_count_def
      get_count_def increment_count_def set_m_ptr_def set_m_control_block_def succ_eq_0_iff
      split: option.splits if_splits)

lemma cinv_copy_const:
  "count_inv w \<Longrightarrow> use_count other w \<noteq> Inr (- 1) \<Longrightarrow>
   SharedPtr_copy_const h other w = Inr w' \<Longrightarrow> count_inv w'"
  by (auto simp add: count_inv_def SharedPtr_copy_const_def Let_def deref_def use_count_def
      get_count_def increment_count_def set_m_ptr_def set_m_control_block_def succ_eq_0_iff
      split: option.splits if_splits)

lemma cinv_reset: "count_inv w \<Longrightarrow> reset h w = Inr w' \<Longrightarrow> count_inv w'"
  by (auto simp add: count_inv_def reset_def Let_def deref_def fetch_sub_1_def
      delete_owned_def delete_ControlBlock_def set_m_ptr_def set_m_control_block_def
      split: option.splits if_splits)

lemma reset_keeps_below_max:
  "count_inv w \<Longrightarrow> reset h w = Inr w' \<Longrightarrow> use_count other w \<noteq> Inr (- 1) \<Longrightarrow>
   use_count other w' \<noteq> Inr (- 1)"
  by (auto simp add: count_inv_def reset_def Let_def deref_def fetch_sub_1_def use_count_def
      get_count_def delete_owned_def delete_ControlBlock_def set_m_ptr_def
      set_m_control_block_def
      split: option.splits if_splits)

lemma cinv_assign_ptr:
  assumes "count_inv w" "completes (assign_ptr h p alloc w) w'"
  shows "count_inv w'"
proof (cases "get h w \<noteq> p")
  case False
  then show ?thesis
    using assms by (simp add: assign_ptr_def completes_def)
next
  case True
  show ?thesis
  proof (cases alloc)
    case None
    then show ?thesis
      using assms True by (simp add: assign_ptr_def completes_def new_ControlBlock_def)
  next
    case (Some a)
    let ?w1 = "w\<lparr>blocks := (blocks w)(a \<mapsto> ControlBlock_ctor (make_deleter default_delete p))\<rparr>"
    have i1: "count_inv ?w1"
      using assms(1) by (simp add: count_inv_def ControlBlock_ctor_def)
    from assms(2) True Some obtain w2 where r: "reset h ?w1 = Inr w2"
      and w': "w' = set_m_ptr h p (set_m_control_block h a w2)"
      by (auto simp add: assign_ptr_def completes_def new_ControlBlock_def reset_no_throw
          split: sum.splits)
    have "count_inv w2"
      using i1 r by (rule cinv_reset)
    then show ?thesis
      using w' by (simp add: count_inv_def blocks_set_m_ptr blocks_set_m_control_block)
  qed
qed

lemma cinv_assign_copy:
  assumes "count_inv w" "use_count other w \<noteq> Inr (- 1)" "assign_copy h other w = Inr w'"
  shows "count_inv w'"
proof (cases "equal_SharedPtr h other w")
  case True
  then show ?thesis
    using assms by (simp add: assign_copy_def)
next
  case False
  then obtain w1 where d: "reset h w = Inr w1" and c: "SharedPtr_copy h other w1 = Inr w'"
    using assms(3) by (auto simp add: assign_copy_def SharedPtr_dtor_def split: sum.splits)
  have "count_inv w1"
    using assms(1) d by (rule cinv_reset)
  moreover have "use_count other w1 \<noteq> Inr (- 1)"
    using assms(1) d assms(2) by (rule reset_keeps_below_max)
  ultimately show ?thesis
    using c by (rule cinv_copy)
qed

lemma reachable_invs: "reachable w \<Longrightarrow> handle_inv w \<and> count_inv w"
proof (induction rule: reachable.induct)
  case init
  show ?case by (simp add: inv_empty cinv_empty)
next
  case (default_ctor w h)
  then show ?case by (simp add: inv_default cinv_default)
next
  case (nullptr_ctor w h)
  then show ?case by (simp add: inv_nullptr cinv_nullptr)
next
  case (ptr_ctor w p alloc h d w')
  then show ?case by (blast intro: inv_ptr cinv_ptr)
next
  case (copy_ctor w other h w')
  then show ?case by (blast intro: inv_copy cinv_copy)
next
  case (copy_const_ctor w other h w')
  then show ?case by (blast intro: inv_copy_const cinv_copy_const)
next
  case (move_ctor w h other)
  then show ?case by (simp add: inv_move cinv_move)
next
  case (move_const_ctor w h other)
  then show ?case by (simp add: inv_move_const cinv_move_const)
next
  case (dtor w h w')
  then show ?case unfolding SharedPtr_dtor_def by (blast intro: inv_reset cinv_reset)
next
  case (reset w h w')
  then show ?case by (blast intro: inv_reset cinv_reset)
next
  case (assign_nullptr w h w')
  then show ?case unfolding assign_nullptr_def by (blast intro: inv_reset cinv_reset)
next
  case (assign_ptr w p alloc h w')
  then show ?case by (blast intro: inv_assign_ptr cinv_assign_ptr)
next
  case (assign_copy w other h w')
  then show ?case by (blast intro: inv_assign_copy cinv_assign_copy)
next
  case (swap w lhs rhs)
  then show ?case by (simp add: inv_swap cinv_swap)
qed

text \<open>
  The restriction on overflow is needed: copy-constructing handle 1 from handle 0 again
  and again, \<open>2^64 - 1\<close> times, wraps the count of the block from 1 to 0, and handle 0
  then has \<open>use_count()\<close> 0 while \<open>get()\<close> is still the object.
\<close>

lemma count_overflow_reaches_zero:
  "copy_each (replicate (2 ^ 64 - 1) 1) 0 one_owner = Inr overflowed \<and>
   get 0 overflowed = 5 \<and> use_count 0 overflowed = Inr 0"
proof -
  let ?cb = "\<lparr>m_count = 1, m_deleter = (default_delete, 5)\<rparr>"
  let ?cs = "replicate (2 ^ 64 - 1) (1::hid)"
  have "\<exists>w'. copy_each ?cs 0 one_owner = Inr w' \<and>
           (\<forall>x. handles w' x =
              (if x \<in> set ?cs then handles one_owner 0 else handles one_owner x)) \<and>
           blocks w' =
             (blocks one_owner)(1 \<mapsto> ?cb\<lparr>m_count := m_count ?cb + of_nat (length ?cs)\<rparr>) \<and>
           deleted w' = deleted one_owner"
    by (rule copy_each_live) (simp_all add: one_owner_def empty_world_def)
  then obtain w' where w': "copy_each ?cs 0 one_owner = Inr w'"
    and h: "\<And>x. handles w' x =
              (if x \<in> set ?cs then handles one_owner 0 else handles one_owner x)"
    and b: "blocks w' =
              (blocks one_owner)(1 \<mapsto> ?cb\<lparr>m_count := m_count ?cb + of_nat (length ?cs)\<rparr>)"
    and d: "deleted w' = deleted one_owner"
    by blast
  have z: "(1 :: 64 word) + of_nat (2 ^ 64 - 1) = 0"
    by simp
  have "w' = overflowed"
    using h b d z
    by (simp add: world_eq_iff fun_eq_iff overflowed_def one_owner_def empty_world_def)
  then show ?thesis
    using w'
    by (simp add: overflowed_def one_owner_def empty_world_def get_def use_count_def
        deref_def get_count_def)
qed

text \<open>
  C3, as stated, fails: the owning constructor given a null raw pointer allocates a
  control block all the same, and the handle then has \<open>get()\<close> null with a non-null block
  pointer and \<open>use_count()\<close> 1.
\<close>

theorem null_raw_pointer_breaks_invariant:
  "SharedPtr_ptr 0 nullptr default_delete (Some 1) empty_world = Inr null_owner \<and>
   get 0 null_owner = nullptr \<and>
   m_control_block (handles null_owner 0) \<noteq> nullptr \<and>
   use_count 0 null_owner = Inr 1"
  by (simp add: empty_world_def null_owner_def op_defs world_eq_iff fun_eq_iff SharedPtr_eq_iff
      get_def use_count_def get_count_def)

text \<open>
  C3, amended. In every state reached through the public operations (construction, copy,
  move, destruction, reset, the three assignments, swap), with non-null raw pointers given
  to the owning constructor and to \<open>operator=(ptr_t)\<close> and no count overflowing, every
  handle has its raw pointer null iff its block pointer is null; a handle with \<open>get()\<close>
  null has \<open>use_count()\<close> 0; and whenever \<open>use_count()\<close> of a handle returns a value, that
  value is 0 iff \<open>get()\<close> is null.
\<close>

theorem reachable_handle_invariant:
  assumes "reachable w"
  shows "handle_inv w \<and>
    (\<forall>h. get h w = nullptr \<longrightarrow> use_count h w = Inr 0) \<and>
    (\<forall>h n. use_count h w = Inr n \<longrightarrow> (n = 0) = (get h w = nullptr))"
proof -
  have i: "handle_inv w" and c: "count_inv w"
    using assms by (simp_all add: reachable_invs)
  have e: "get h w = nullptr \<Longrightarrow> use_count h w = Inr 0" for h
    using i by (simp add: handle_inv_def get_def use_count_def)
  have z: "use_count h w = Inr n \<Longrightarrow> (n = 0) = (get h w = nullptr)" for h n
    using i c
    by (auto simp add: handle_inv_def count_inv_def get_def use_count_def deref_def
        get_count_def split: if_splits option.splits)
  show ?thesis
    using i e z by blast
qed

theorem reachable_handle_invariant_witness:
  "reachable two_owners \<and> handle_inv two_owners \<and>
   get 0 two_owners = 5 \<and> use_count 0 two_owners = Inr 2 \<and>
   get 2 two_owners = nullptr \<and> use_count 2 two_owners = Inr 0"
  using reachable_handle_invariant [OF reachable_two_owners] reachable_two_owners
  by (simp add: empty_world_def one_owner_def two_owners_def use_count_def get_def deref_def
      get_count_def)

end
